theory Spec2Isabelle
  imports Main
begin

section \<open>The Logs panel of grafana-ui (components/Logs/Logs.tsx)\<close>

text \<open>
  A shallow embedding of the \<^verbatim>\<open>Logs\<close> React component: its props and state, the three
  lifecycle methods with the two timers they own, the event handlers, and the part of
  \<^verbatim>\<open>render\<close> that decides which rows, meta items and placeholders are handed to the
  presentation layer. The graph sub-panel and the CSS structure are left out.
\<close>

subsection \<open>Data of @grafana/data read by the component\<close>

text \<open>
  The declarations of \<^verbatim>\<open>LogsModel\<close>, \<^verbatim>\<open>LogRowModel\<close>, \<^verbatim>\<open>LogsMetaItem\<close> and the enums
  live in the package @grafana/data; only the members this file reads are modelled.
  \<^verbatim>\<open>duplicates?: number\<close> is an optional count: \<open>None\<close> is JavaScript's
  \<^verbatim>\<open>undefined\<close>.
\<close>

datatype LogsDedupStrategy = none | exact | numbers | signature

datatype LogsMetaKind = Number | String | LabelsMap

datatype meta_value = NumberValue int | StringValue string | LabelsValue "(string \<times> string) list"

record LogsMetaItem =
  label :: string
  mvalue :: meta_value
  kind :: LogsMetaKind

record LogRowModel =
  entry :: string
  duplicates :: "int option"

record LogsModel =
  hasUniqueLabels :: bool
  meta :: "LogsMetaItem list option"
  rows :: "LogRowModel list"

definition PREVIEW_LIMIT :: nat where
  "PREVIEW_LIMIT = 100"

subsection \<open>Props and state\<close>

text \<open>
  Optional props are options; the optional callbacks \<^verbatim>\<open>onStartScanning\<close> and
  \<^verbatim>\<open>onStopScanning\<close> are modelled by whether they are present.
\<close>

record Props =
  data :: "LogsModel option"
  dedupedData :: "LogsModel option"
  highlighterExpressions :: "string list"
  loading :: bool
  scanning :: bool
  dedupStrategy :: LogsDedupStrategy
  onStartScanning :: bool
  onStopScanning :: bool

record State =
  deferLogs :: bool
  renderAll :: bool
  showLabels :: bool
  showTime :: bool

subsection \<open>Timers\<close>

text \<open>
  The two closures handed to \<^verbatim>\<open>setTimeout\<close>. The first one captures the value of
  \<^verbatim>\<open>renderAll\<close> computed in \<^verbatim>\<open>componentDidMount\<close>.
\<close>

datatype callback = RevealCb bool | CompleteCb

record timer =
  handle :: nat
  due :: nat
  callback :: callback

text \<open>
  A component instance together with the part of the JavaScript runtime it talks to:
  the clock, the table of pending timers, the next free timer handle, and the log of
  all timers ever scheduled (what a spy on \<^verbatim>\<open>setTimeout\<close> would record). A timer
  handle is an object (\<^verbatim>\<open>NodeJS.Timer | null\<close>), so the truthiness tests of
  \<^verbatim>\<open>componentWillUnmount\<close> are tests for \<open>Some\<close>.
\<close>

record Logs =
  props :: Props
  state :: State
  deferLogsTimer :: "nat option"
  renderAllTimer :: "nat option"
  now :: nat
  pending :: "timer list"
  next_handle :: nat
  scheduled :: "timer list"

definition setTimeout :: "callback \<Rightarrow> nat \<Rightarrow> Logs \<Rightarrow> nat \<times> Logs" where
  "setTimeout cb delay w =
     (let t = \<lparr>handle = next_handle w, due = now w + delay, callback = cb\<rparr>
      in (next_handle w,
          w\<lparr>pending := pending w @ [t],
            next_handle := Suc (next_handle w),
            scheduled := scheduled w @ [t]\<rparr>))"

definition clearTimeout :: "nat \<Rightarrow> Logs \<Rightarrow> Logs" where
  "clearTimeout h w = w\<lparr>pending := filter (\<lambda>t. handle t \<noteq> h) (pending w)\<rparr>"

subsection \<open>Lifecycle\<close>

definition rowCount :: "Props \<Rightarrow> nat" where
  "rowCount p = (case data p of None \<Rightarrow> 0 | Some d \<Rightarrow> length (rows d))"

definition componentDidMount :: "Logs \<Rightarrow> Logs" where
  "componentDidMount w =
     (if deferLogs (state w) then
        (let n = rowCount (props w);
             ra = (n \<le> PREVIEW_LIMIT * 2);
             (h, w') = setTimeout (RevealCb ra) n w
         in w'\<lparr>deferLogsTimer := Some h\<rparr>)
      else w)"

definition componentDidUpdate :: "State \<Rightarrow> Logs \<Rightarrow> Logs" where
  "componentDidUpdate prevState w =
     (if deferLogs prevState \<and> \<not> deferLogs (state w) \<and> \<not> renderAll (state w) then
        (let (h, w') = setTimeout CompleteCb 2000 w
         in w'\<lparr>renderAllTimer := Some h\<rparr>)
      else w)"

definition componentWillUnmount :: "Logs \<Rightarrow> Logs" where
  "componentWillUnmount w =
     (let w1 = (case deferLogsTimer w of Some h \<Rightarrow> clearTimeout h w | None \<Rightarrow> w);
          w2 = (case renderAllTimer w1 of Some h \<Rightarrow> clearTimeout h w1 | None \<Rightarrow> w1)
      in w2)"

text \<open>
  \<^verbatim>\<open>setState\<close> merges the update into the state; the re-render is followed by
  \<^verbatim>\<open>componentDidUpdate\<close> with the state before the update. (A \<^verbatim>\<open>PureComponent\<close> skips
  the call when nothing changed; then the previous and the current state agree and
  \<^verbatim>\<open>componentDidUpdate\<close> does nothing either.)
\<close>

definition setState :: "(State \<Rightarrow> State) \<Rightarrow> Logs \<Rightarrow> Logs" where
  "setState upd w = componentDidUpdate (state w) (w\<lparr>state := upd (state w)\<rparr>)"

definition initialState :: State where
  "initialState = \<lparr>deferLogs = True, renderAll = False, showLabels = False, showTime = True\<rparr>"

definition construct :: "Props \<Rightarrow> nat \<Rightarrow> Logs" where
  "construct p t0 =
     \<lparr>props = p, state = initialState, deferLogsTimer = None, renderAllTimer = None,
      now = t0, pending = [], next_handle = 1, scheduled = []\<rparr>"

definition mount :: "Props \<Rightarrow> nat \<Rightarrow> Logs" where
  "mount p t0 = componentDidMount (construct p t0)"

subsection \<open>The runtime firing timers\<close>

fun run_callback :: "callback \<Rightarrow> Logs \<Rightarrow> Logs" where
  "run_callback (RevealCb ra) w = setState (\<lambda>s. s\<lparr>deferLogs := False, renderAll := ra\<rparr>) w"
| "run_callback CompleteCb w = setState (\<lambda>s. s\<lparr>renderAll := True\<rparr>) w"

text \<open>The pending timer that is due first; among equals, the one scheduled first.\<close>

fun earliest :: "timer list \<Rightarrow> timer option" where
  "earliest [] = None"
| "earliest (t # ts) =
     (case earliest ts of
        None \<Rightarrow> Some t
      | Some u \<Rightarrow> if due u < due t then Some u else Some t)"

definition fire :: "timer \<Rightarrow> Logs \<Rightarrow> Logs" where
  "fire t w =
     run_callback (callback t)
       (w\<lparr>pending := filter (\<lambda>u. handle u \<noteq> handle t) (pending w),
          now := max (now w) (due t)\<rparr>)"

fun weight :: "timer \<Rightarrow> nat" where
  "weight t = (case callback t of RevealCb _ \<Rightarrow> 2 | CompleteCb \<Rightarrow> 1)"

lemma earliest_mem: "earliest ts = Some t \<Longrightarrow> t \<in> set ts"
  by (induction ts arbitrary: t) (auto split: option.splits if_splits)

lemma weight_filter_le:
  "sum_list (map weight (filter P ts)) \<le> sum_list (map weight ts)"
  by (induction ts) (auto simp del: weight.simps)

lemma weight_filter:
  "t \<in> set ts \<Longrightarrow>
   sum_list (map weight (filter (\<lambda>u. handle u \<noteq> handle t) ts)) + weight t
     \<le> sum_list (map weight ts)"
proof (induction ts)
  case Nil
  then show ?case by simp
next
  case (Cons a ts)
  show ?case
  proof (cases "a = t")
    case True
    then show ?thesis
      using weight_filter_le [of "\<lambda>u. handle u \<noteq> handle t" ts]
      by (simp del: weight.simps)
  next
    case False
    with Cons show ?thesis
      by (auto simp del: weight.simps)
  qed
qed

lemma pending_fire:
  "sum_list (map weight (pending (fire t w))) + weight t
     \<le> sum_list (map weight (filter (\<lambda>u. handle u \<noteq> handle t) (pending w))) + 2 * weight t - 1"
  by (cases "callback t")
     (auto simp: fire_def setState_def componentDidUpdate_def setTimeout_def Let_def)

text \<open>
  Time passes until the instant \<open>T\<close>: the timers due by then fire in the order of their
  due times, each at its due time, and the clock ends at \<open>T\<close>.
\<close>

function run_until :: "nat \<Rightarrow> Logs \<Rightarrow> Logs" where
  "run_until T w =
     (case earliest (filter (\<lambda>t. due t \<le> T) (pending w)) of
        None \<Rightarrow> w\<lparr>now := max (now w) T\<rparr>
      | Some t \<Rightarrow> run_until T (fire t w))"
  by pat_completeness auto
termination
proof (relation "measure (\<lambda>(T, w). sum_list (map weight (pending w)))")
  show "wf (measure (\<lambda>(T, w). sum_list (map weight (pending w))))"
    by simp
next
  fix T :: nat and w :: Logs and t :: timer
  assume "earliest (filter (\<lambda>t. due t \<le> T) (pending w)) = Some t"
  then have mem: "t \<in> set (pending w)"
    using earliest_mem by fastforce
  have pos: "0 < weight t"
    by (cases "callback t") auto
  from weight_filter [OF mem] pending_fire [of t w] pos
  have "sum_list (map weight (pending (fire t w))) < sum_list (map weight (pending w))"
    by linarith
  then show "((T, fire t w), (T, w)) \<in> measure (\<lambda>(T, w). sum_list (map weight (pending w)))"
    by simp
qed

declare run_until.simps [simp del]

definition elapse :: "nat \<Rightarrow> Logs \<Rightarrow> Logs" where
  "elapse d w = run_until (now w + d) w"

subsection \<open>Events\<close>

text \<open>
  What can happen to a mounted instance: the owner delivers new props (a re-render
  followed by \<^verbatim>\<open>componentDidUpdate\<close>, the state being unchanged), time passes, one of
  the two display toggles is used, or the instance is unmounted.
\<close>

definition onChangeLabels :: "bool \<Rightarrow> Logs \<Rightarrow> Logs" where
  "onChangeLabels checked w = setState (\<lambda>s. s\<lparr>showLabels := checked\<rparr>) w"

definition onChangeTime :: "bool \<Rightarrow> Logs \<Rightarrow> Logs" where
  "onChangeTime checked w = setState (\<lambda>s. s\<lparr>showTime := checked\<rparr>) w"

definition deliver :: "Props \<Rightarrow> Logs \<Rightarrow> Logs" where
  "deliver p w = componentDidUpdate (state w) (w\<lparr>props := p\<rparr>)"

datatype event = Deliver Props | Elapse nat | ChangeLabels bool | ChangeTime bool | Unmount

fun step :: "event \<Rightarrow> Logs \<Rightarrow> Logs" where
  "step (Deliver p) w = deliver p w"
| "step (Elapse d) w = elapse d w"
| "step (ChangeLabels b) w = onChangeLabels b w"
| "step (ChangeTime b) w = onChangeTime b w"
| "step Unmount w = componentWillUnmount w"

fun run :: "event list \<Rightarrow> Logs \<Rightarrow> Logs" where
  "run [] w = w"
| "run (e # es) w = run es (step e w)"

subsection \<open>Handlers that notify the owner\<close>

text \<open>
  A handler's result is the list of calls it makes to the callbacks in the props.

  The enum \<^verbatim>\<open>LogLevel\<close> is declared in @grafana/data; its members (name to level) are
  the parameter \<open>LogLevel\<close>. At run time the enum is a plain object, so the expression
  \<^verbatim>\<open>LogLevel[level]\<close> is a property lookup: an own member gives its level; a name that
  is not a member is looked up in \<^verbatim>\<open>Object.prototype\<close>, whose standard properties are
  functions or objects, never levels; any other name gives \<^verbatim>\<open>undefined\<close>.
\<close>

datatype 'l property = Level 'l | Inherited string | Undefined

definition objectPrototypeNames :: "string list" where
  "objectPrototypeNames =
     [''constructor'', ''__defineGetter__'', ''__defineSetter__'', ''hasOwnProperty'',
      ''__lookupGetter__'', ''__lookupSetter__'', ''isPrototypeOf'',
      ''propertyIsEnumerable'', ''toString'', ''valueOf'', ''__proto__'',
      ''toLocaleString'']"

definition getProperty :: "(string \<Rightarrow> 'l option) \<Rightarrow> string \<Rightarrow> 'l property" where
  "getProperty LogLevel level =
     (case LogLevel level of
        Some l \<Rightarrow> Level l
      | None \<Rightarrow> if level \<in> set objectPrototypeNames then Inherited level else Undefined)"

definition isLevel :: "'l property \<Rightarrow> bool" where
  "isLevel v = (case v of Level _ \<Rightarrow> True | Inherited _ \<Rightarrow> False | Undefined \<Rightarrow> False)"

datatype 'l notification =
    OnDedupStrategyChange LogsDedupStrategy
  | OnToggleLogLevel "'l property list"
  | OnStartScanning
  | OnStopScanning

definition onChangeDedup :: "Props \<Rightarrow> LogsDedupStrategy \<Rightarrow> 'l notification list" where
  "onChangeDedup p dedup =
     (if dedupStrategy p = dedup then [OnDedupStrategyChange none]
      else [OnDedupStrategyChange dedup])"

definition onToggleLogLevel :: "(string \<Rightarrow> 'l option) \<Rightarrow> string list \<Rightarrow> 'l notification list" where
  "onToggleLogLevel LogLevel hiddenRawLevels =
     (let hiddenLogLevels = map (\<lambda>level. getProperty LogLevel level) hiddenRawLevels
      in [OnToggleLogLevel hiddenLogLevels])"

definition onClickScan :: "Props \<Rightarrow> 'l notification list" where
  "onClickScan p = (if onStartScanning p then [OnStartScanning] else [])"

definition onClickStopScan :: "Props \<Rightarrow> 'l notification list" where
  "onClickStopScan p = (if onStopScanning p then [OnStopScanning] else [])"

subsection \<open>Render\<close>

definition hasData :: "Props \<Rightarrow> bool" where
  "hasData p = (case data p of None \<Rightarrow> False | Some d \<Rightarrow> 0 < length (rows d))"

definition hasLabel :: "Props \<Rightarrow> bool" where
  "hasLabel p =
     (if hasData p \<and> (case dedupedData p of None \<Rightarrow> False | Some dd \<Rightarrow> hasUniqueLabels dd)
      then True else False)"

text \<open>
  The reducer of \<^verbatim>\<open>dedupCount\<close>: \<^verbatim>\<open>row.duplicates ? sum + row.duplicates : sum\<close>. The test
  is false for \<^verbatim>\<open>undefined\<close> and for 0.
\<close>

definition addDuplicates :: "int \<Rightarrow> LogRowModel \<Rightarrow> int" where
  "addDuplicates acc r =
     (case duplicates r of
        None \<Rightarrow> acc
      | Some d \<Rightarrow> if d \<noteq> 0 then acc + d else acc)"

text \<open>The duplicate count of a row as the specification reads it: a missing count is 0.\<close>

definition duplicatesOrZero :: "LogRowModel \<Rightarrow> int" where
  "duplicatesOrZero r = (case duplicates r of None \<Rightarrow> 0 | Some d \<Rightarrow> d)"

definition dedupCount :: "Props \<Rightarrow> int" where
  "dedupCount p =
     (case dedupedData p of
        Some dd \<Rightarrow> foldl addDuplicates 0 (rows dd)
      | None \<Rightarrow> 0)"

definition showDuplicates :: "Props \<Rightarrow> bool" where
  "showDuplicates p = (dedupStrategy p \<noteq> none \<and> 0 < dedupCount p)"

definition metaItems :: "LogsModel \<Rightarrow> Props \<Rightarrow> LogsMetaItem list" where
  "metaItems d p =
     (let m = (case meta d of Some ms \<Rightarrow> ms | None \<Rightarrow> [])
      in if dedupStrategy p \<noteq> none
         then m @ [\<lparr>label = ''Dedup count'', mvalue = NumberValue (dedupCount p), kind = Number\<rparr>]
         else m)"

definition processedRows :: "Props \<Rightarrow> LogRowModel list" where
  "processedRows p = (case dedupedData p of Some dd \<Rightarrow> rows dd | None \<Rightarrow> [])"

definition firstRows :: "Props \<Rightarrow> LogRowModel list" where
  "firstRows p = take PREVIEW_LIMIT (processedRows p)"

definition lastRows :: "Props \<Rightarrow> LogRowModel list" where
  "lastRows p = drop PREVIEW_LIMIT (processedRows p)"

text \<open>
  The props of one \<^verbatim>\<open>LogRow\<close> element. Only the rows of the first slice receive the
  highlighter expressions.
\<close>

record LogRowProps =
  key :: nat
  row :: LogRowModel
  highlighter :: "string list option"
  rowShowDuplicates :: bool
  rowShowLabels :: bool
  rowShowTime :: bool

record view =
  metaPanel :: "LogsMetaItem list option"
  logRows :: "LogRowProps list"
  placeholder :: "nat option"
  noData :: bool
  scanPanel :: bool

definition firstElements :: "Props \<Rightarrow> State \<Rightarrow> LogRowProps list" where
  "firstElements p s =
     map (\<lambda>(index, r).
            \<lparr>key = index, row = r, highlighter = Some (highlighterExpressions p),
             rowShowDuplicates = showDuplicates p,
             rowShowLabels = (showLabels s \<and> hasLabel p), rowShowTime = showTime s\<rparr>)
         (enumerate 0 (firstRows p))"

definition lastElements :: "Props \<Rightarrow> State \<Rightarrow> LogRowProps list" where
  "lastElements p s =
     map (\<lambda>(index, r).
            \<lparr>key = PREVIEW_LIMIT + index, row = r, highlighter = None,
             rowShowDuplicates = showDuplicates p,
             rowShowLabels = (showLabels s \<and> hasLabel p), rowShowTime = showTime s\<rparr>)
         (enumerate 0 (lastRows p))"

text \<open>\<open>None\<close> is the \<^verbatim>\<open>null\<close> returned when there is no data.\<close>

definition render :: "Props \<Rightarrow> State \<Rightarrow> view option" where
  "render p s =
     (case data p of
        None \<Rightarrow> None
      | Some d \<Rightarrow>
          Some \<lparr>metaPanel = (if hasData p then Some (metaItems d p) else None),
                logRows =
                  (if hasData p \<and> \<not> deferLogs s then firstElements p s else []) @
                  (if hasData p \<and> \<not> deferLogs s \<and> renderAll s then lastElements p s else []),
                placeholder =
                  (if hasData p \<and> deferLogs s then Some (length (processedRows p)) else None),
                noData = (\<not> loading p \<and> \<not> hasData p \<and> \<not> scanning p),
                scanPanel = scanning p\<rparr>)"

text \<open>The rows on the screen, in the order of the elements.\<close>

definition visibleRows :: "Logs \<Rightarrow> LogRowModel list" where
  "visibleRows w = (case render (props w) (state w) of None \<Rightarrow> [] | Some v \<Rightarrow> map row (logRows v))"

subsection \<open>Reachable instances\<close>

text \<open>
  The timers an instance mounted with props \<open>p\<close> at time \<open>t0\<close> ever schedules, and the
  shapes its reachable configurations have: before the reveal, between the reveal and
  the completion, and after.
\<close>

definition revealTimer :: "Props \<Rightarrow> nat \<Rightarrow> timer" where
  "revealTimer p t0 =
     \<lparr>handle = 1, due = t0 + rowCount p, callback = RevealCb (rowCount p \<le> PREVIEW_LIMIT * 2)\<rparr>"

definition completeTimer :: "nat \<Rightarrow> timer" where
  "completeTimer d = \<lparr>handle = 2, due = d, callback = CompleteCb\<rparr>"

definition deferredOk :: "Props \<Rightarrow> nat \<Rightarrow> Logs \<Rightarrow> bool" where
  "deferredOk p t0 w \<longleftrightarrow>
     deferLogs (state w) \<and> \<not> renderAll (state w) \<and> renderAllTimer w = None \<and>
     next_handle w = 2 \<and> scheduled w = [revealTimer p t0] \<and>
     (pending w = [revealTimer p t0] \<or> pending w = [])"

definition partialOk :: "Props \<Rightarrow> nat \<Rightarrow> Logs \<Rightarrow> bool" where
  "partialOk p t0 w \<longleftrightarrow>
     \<not> deferLogs (state w) \<and> \<not> renderAll (state w) \<and> PREVIEW_LIMIT * 2 < rowCount p \<and>
     renderAllTimer w = Some 2 \<and> next_handle w = 3 \<and>
     (\<exists>d. scheduled w = [revealTimer p t0, completeTimer d] \<and>
          (pending w = [completeTimer d] \<or> pending w = []))"

definition fullOk :: "Props \<Rightarrow> nat \<Rightarrow> Logs \<Rightarrow> bool" where
  "fullOk p t0 w \<longleftrightarrow>
     \<not> deferLogs (state w) \<and> renderAll (state w) \<and> pending w = [] \<and>
     ((rowCount p \<le> PREVIEW_LIMIT * 2 \<and> renderAllTimer w = None \<and>
       scheduled w = [revealTimer p t0])
      \<or> (PREVIEW_LIMIT * 2 < rowCount p \<and> renderAllTimer w = Some 2 \<and>
          (\<exists>d. scheduled w = [revealTimer p t0, completeTimer d])))"

definition staged :: "Props \<Rightarrow> nat \<Rightarrow> Logs \<Rightarrow> bool" where
  "staged p t0 w \<longleftrightarrow>
     deferLogsTimer w = Some 1 \<and> (deferredOk p t0 w \<or> partialOk p t0 w \<or> fullOk p t0 w)"

definition partialWorld :: "Props \<Rightarrow> nat \<Rightarrow> nat \<Rightarrow> Logs" where
  "partialWorld p t0 t =
     \<lparr>props = p, state = initialState\<lparr>deferLogs := False, renderAll := False\<rparr>,
      deferLogsTimer = Some 1, renderAllTimer = Some 2, now = t,
      pending = [completeTimer (t0 + rowCount p + 2000)], next_handle = 3,
      scheduled = [revealTimer p t0, completeTimer (t0 + rowCount p + 2000)]\<rparr>"

definition fullWorld :: "Props \<Rightarrow> nat \<Rightarrow> nat \<Rightarrow> Logs" where
  "fullWorld p t0 t =
     \<lparr>props = p, state = initialState\<lparr>deferLogs := False, renderAll := True\<rparr>,
      deferLogsTimer = Some 1,
      renderAllTimer = (if rowCount p \<le> PREVIEW_LIMIT * 2 then None else Some 2), now = t,
      pending = [], next_handle = (if rowCount p \<le> PREVIEW_LIMIT * 2 then 2 else 3),
      scheduled = (if rowCount p \<le> PREVIEW_LIMIT * 2 then [revealTimer p t0]
                   else [revealTimer p t0, completeTimer (t0 + rowCount p + 2000)])\<rparr>"

definition isReveal :: "timer \<Rightarrow> bool" where
  "isReveal t = (case callback t of RevealCb _ \<Rightarrow> True | CompleteCb \<Rightarrow> False)"

text \<open>The count in the text \<^verbatim>\<open>Rendering N rows...\<close>, when it is on the screen.\<close>

definition shownPlaceholder :: "Logs \<Rightarrow> nat option" where
  "shownPlaceholder w =
     (case render (props w) (state w) of None \<Rightarrow> None | Some v \<Rightarrow> placeholder v)"

subsection \<open>Example inputs\<close>

text \<open>
  201 raw rows with the same entry, folded by the strategy \<^verbatim>\<open>exact\<close> into one row that
  counts 200 duplicates; and a delivery with no rows at all.
\<close>

definition foldedProps :: Props where
  "foldedProps =
     \<lparr>data = Some \<lparr>hasUniqueLabels = False, meta = None,
                    rows = replicate 201 \<lparr>entry = ''a'', duplicates = None\<rparr>\<rparr>,
      dedupedData = Some \<lparr>hasUniqueLabels = False, meta = None,
                           rows = [\<lparr>entry = ''a'', duplicates = Some 200\<rparr>]\<rparr>,
      highlighterExpressions = [], loading = False, scanning = False,
      dedupStrategy = exact, onStartScanning = False, onStopScanning = False\<rparr>"

definition emptyProps :: Props where
  "emptyProps =
     \<lparr>data = Some \<lparr>hasUniqueLabels = False, meta = None, rows = []\<rparr>,
      dedupedData = Some \<lparr>hasUniqueLabels = False, meta = None, rows = []\<rparr>,
      highlighterExpressions = [], loading = False, scanning = False,
      dedupStrategy = none, onStartScanning = False, onStopScanning = False\<rparr>"

section \<open>Properties\<close>

subsection \<open>The staged-rendering state machine\<close>

lemma mount_eq:
  "mount p t0 =
     \<lparr>props = p, state = initialState, deferLogsTimer = Some 1, renderAllTimer = None,
      now = t0, pending = [revealTimer p t0], next_handle = 2,
      scheduled = [revealTimer p t0]\<rparr>"
  by (simp add: mount_def construct_def componentDidMount_def setTimeout_def initialState_def
      revealTimer_def Let_def)

lemma staged_mount: "staged p t0 (mount p t0)"
  by (simp add: mount_eq staged_def deferredOk_def initialState_def)

lemma staged_now: "staged p t0 w \<Longrightarrow> staged p t0 (w\<lparr>now := x\<rparr>)"
  by (simp add: staged_def deferredOk_def partialOk_def fullOk_def)

lemma fire_reveal:
  "fire \<lparr>handle = h, due = d, callback = RevealCb ra\<rparr> w =
     (let w1 = w\<lparr>pending := filter (\<lambda>u. handle u \<noteq> h) (pending w), now := max (now w) d,
                  state := (state w)\<lparr>deferLogs := False, renderAll := ra\<rparr>\<rparr>
      in if deferLogs (state w) \<and> \<not> ra
         then w1\<lparr>pending := pending w1 @ [\<lparr>handle = next_handle w, due = now w1 + 2000, callback = CompleteCb\<rparr>],
                 next_handle := Suc (next_handle w),
                 scheduled := scheduled w @ [\<lparr>handle = next_handle w, due = now w1 + 2000, callback = CompleteCb\<rparr>],
                 renderAllTimer := Some (next_handle w)\<rparr>
         else w1)"
  by (simp add: fire_def setState_def componentDidUpdate_def setTimeout_def Let_def)

lemma fire_complete:
  "fire \<lparr>handle = h, due = d, callback = CompleteCb\<rparr> w =
     w\<lparr>pending := filter (\<lambda>u. handle u \<noteq> h) (pending w), now := max (now w) d,
       state := (state w)\<lparr>renderAll := True\<rparr>\<rparr>"
  by (simp add: fire_def setState_def componentDidUpdate_def setTimeout_def Let_def)

lemma deferredOk_fire:
  assumes "deferredOk p t0 w" and "t \<in> set (pending w)"
  shows "partialOk p t0 (fire t w) \<or> fullOk p t0 (fire t w)"
proof -
  from assms have pw: "pending w = [revealTimer p t0]" and t: "t = revealTimer p t0"
    by (auto simp: deferredOk_def)
  show ?thesis
  proof (cases "rowCount p \<le> PREVIEW_LIMIT * 2")
    case True
    with assms(1) pw have "fullOk p t0 (fire t w)"
      unfolding t revealTimer_def
      by (simp add: fire_reveal deferredOk_def fullOk_def revealTimer_def)
    then show ?thesis ..
  next
    case False
    with assms(1) pw have "partialOk p t0 (fire t w)"
      unfolding t revealTimer_def
      by (simp add: fire_reveal deferredOk_def partialOk_def revealTimer_def completeTimer_def)
    then show ?thesis by simp
  qed
qed

lemma partialOk_fire:
  assumes "partialOk p t0 w" and "t \<in> set (pending w)"
  shows "fullOk p t0 (fire t w)"
proof -
  from assms obtain d where
    pw: "pending w = [completeTimer d]" and t: "t = completeTimer d"
    and sw: "scheduled w = [revealTimer p t0, completeTimer d]"
    by (auto simp: partialOk_def)
  from assms(1) pw sw show ?thesis
    unfolding t completeTimer_def
    by (simp add: fire_complete partialOk_def fullOk_def completeTimer_def)
qed

lemma staged_fire:
  assumes "staged p t0 w" and "t \<in> set (pending w)"
  shows "staged p t0 (fire t w)"
proof -
  have dt: "deferLogsTimer (fire t w) = deferLogsTimer w"
    by (cases "callback t")
       (simp_all add: fire_def setState_def componentDidUpdate_def setTimeout_def Let_def)
  from assms(2) have "\<not> fullOk p t0 w"
    by (auto simp: fullOk_def)
  with assms(1) consider "deferredOk p t0 w" | "partialOk p t0 w"
    by (auto simp: staged_def)
  then show ?thesis
  proof cases
    case 1
    from deferredOk_fire [OF 1 assms(2)] assms(1) dt show ?thesis
      by (auto simp: staged_def)
  next
    case 2
    from partialOk_fire [OF 2 assms(2)] assms(1) dt show ?thesis
      by (auto simp: staged_def)
  qed
qed

lemma staged_run_until: "staged p t0 w \<Longrightarrow> staged p t0 (run_until T w)"
proof (induction T w rule: run_until.induct)
  case (1 T w)
  show ?case
  proof (cases "earliest (filter (\<lambda>t. due t \<le> T) (pending w))")
    case None
    with "1.prems" show ?thesis
      by (subst run_until.simps) (simp add: staged_now)
  next
    case (Some t)
    then have "t \<in> set (pending w)"
      using earliest_mem by fastforce
    with "1.prems" have "staged p t0 (fire t w)"
      by (rule staged_fire)
    with "1.IH" Some show ?thesis
      by (subst run_until.simps) simp
  qed
qed

lemma deliver_eq: "deliver q w = w\<lparr>props := q\<rparr>"
  by (auto simp: deliver_def componentDidUpdate_def)

lemma onChangeLabels_eq: "onChangeLabels b w = w\<lparr>state := (state w)\<lparr>showLabels := b\<rparr>\<rparr>"
  by (auto simp: onChangeLabels_def setState_def componentDidUpdate_def)

lemma onChangeTime_eq: "onChangeTime b w = w\<lparr>state := (state w)\<lparr>showTime := b\<rparr>\<rparr>"
  by (auto simp: onChangeTime_def setState_def componentDidUpdate_def)

lemma staged_unmount_eq:
  assumes "staged p t0 w"
  shows "componentWillUnmount w = w\<lparr>pending := []\<rparr>"
proof -
  from assms have h1: "deferLogsTimer w = Some 1"
    by (simp add: staged_def)
  from assms consider "deferredOk p t0 w" | "partialOk p t0 w" | "fullOk p t0 w"
    by (auto simp: staged_def)
  then show ?thesis
  proof cases
    case 1
    with h1 show ?thesis
      by (auto simp: componentWillUnmount_def clearTimeout_def deferredOk_def revealTimer_def)
  next
    case 2
    with h1 show ?thesis
      by (auto simp: componentWillUnmount_def clearTimeout_def partialOk_def completeTimer_def)
  next
    case 3
    with h1 show ?thesis
      by (auto simp: componentWillUnmount_def clearTimeout_def fullOk_def)
  qed
qed

lemma staged_pending_nil: "staged p t0 w \<Longrightarrow> staged p t0 (w\<lparr>pending := []\<rparr>)"
  by (auto simp: staged_def deferredOk_def partialOk_def fullOk_def)

lemma staged_props: "staged p t0 w \<Longrightarrow> staged p t0 (w\<lparr>props := q\<rparr>)"
  by (simp add: staged_def deferredOk_def partialOk_def fullOk_def)

lemma staged_showLabels:
  "staged p t0 w \<Longrightarrow> staged p t0 (w\<lparr>state := (state w)\<lparr>showLabels := b\<rparr>\<rparr>)"
  by (simp add: staged_def deferredOk_def partialOk_def fullOk_def)

lemma staged_showTime:
  "staged p t0 w \<Longrightarrow> staged p t0 (w\<lparr>state := (state w)\<lparr>showTime := b\<rparr>\<rparr>)"
  by (simp add: staged_def deferredOk_def partialOk_def fullOk_def)

lemma staged_step: "staged p t0 w \<Longrightarrow> staged p t0 (step e w)"
  by (cases e)
     (simp_all add: deliver_eq onChangeLabels_eq onChangeTime_eq elapse_def staged_run_until
        staged_props staged_showLabels staged_showTime staged_unmount_eq staged_pending_nil)

lemma staged_run: "staged p t0 w \<Longrightarrow> staged p t0 (run es w)"
  by (induction es arbitrary: w) (simp_all add: staged_step)

lemma staged_reachable: "staged p t0 (run es (mount p t0))"
  by (rule staged_run) (rule staged_mount)

lemma run_append: "run (xs @ ys) w = run ys (run xs w)"
  by (induction xs arbitrary: w) simp_all

lemma run_until_idle:
  "filter (\<lambda>t. due t \<le> T) (pending w) = [] \<Longrightarrow> run_until T w = w\<lparr>now := max (now w) T\<rparr>"
  by (subst run_until.simps) simp

lemma run_until_single:
  "pending w = [t] \<Longrightarrow> due t \<le> T \<Longrightarrow> run_until T w = run_until T (fire t w)"
  by (subst run_until.simps) simp

lemma quiet_step:
  assumes "pending w = []"
  shows "pending (step e w) = [] \<and> scheduled (step e w) = scheduled w \<and>
         deferLogs (state (step e w)) = deferLogs (state w) \<and>
         renderAll (state (step e w)) = renderAll (state w)"
proof (cases e)
  case (Elapse d)
  with assms show ?thesis
    by (simp add: elapse_def run_until_idle)
next
  case Unmount
  with assms show ?thesis
    by (simp add: componentWillUnmount_def clearTimeout_def split: option.splits)
qed (simp_all add: assms deliver_eq onChangeLabels_eq onChangeTime_eq)

lemma quiet_run:
  "pending w = [] \<Longrightarrow>
   pending (run es w) = [] \<and> scheduled (run es w) = scheduled w \<and>
   deferLogs (state (run es w)) = deferLogs (state w) \<and>
   renderAll (state (run es w)) = renderAll (state w)"
proof (induction es arbitrary: w)
  case Nil
  then show ?case by simp
next
  case (Cons e es)
  from quiet_step [OF Cons.prems, of e] Cons.IH [of "step e w"] show ?case
    by simp
qed

lemma now_mount: "now (mount p t0) = t0"
  by (simp add: mount_eq)

lemma state_mount: "state (mount p t0) = initialState"
  by (simp add: mount_eq)

lemma elapse_mount_early:
  "d < rowCount p \<Longrightarrow> elapse d (mount p t0) = (mount p t0)\<lparr>now := t0 + d\<rparr>"
  by (simp add: elapse_def mount_eq run_until_idle revealTimer_def)

lemma fire_reveal_mount:
  "fire (revealTimer p t0) (mount p t0) =
     (if rowCount p \<le> PREVIEW_LIMIT * 2 then fullWorld p t0 (t0 + rowCount p)
      else partialWorld p t0 (t0 + rowCount p))"
  unfolding revealTimer_def
  by (simp add: fire_reveal mount_eq revealTimer_def completeTimer_def initialState_def
      partialWorld_def fullWorld_def)

lemma run_until_fullWorld: "run_until T (fullWorld p t0 t) = fullWorld p t0 (max t T)"
  by (simp add: run_until_idle fullWorld_def)

lemma run_until_partial_early:
  "T < t0 + rowCount p + 2000 \<Longrightarrow>
   run_until T (partialWorld p t0 t) = partialWorld p t0 (max t T)"
  by (simp add: run_until_idle partialWorld_def completeTimer_def)

lemma fire_complete_partial:
  "PREVIEW_LIMIT * 2 < rowCount p \<Longrightarrow> t \<le> t0 + rowCount p + 2000 \<Longrightarrow>
   fire (completeTimer (t0 + rowCount p + 2000)) (partialWorld p t0 t) =
     fullWorld p t0 (t0 + rowCount p + 2000)"
  unfolding completeTimer_def
  by (simp add: fire_complete partialWorld_def fullWorld_def completeTimer_def initialState_def)

lemma run_until_partial_late:
  assumes "PREVIEW_LIMIT * 2 < rowCount p" and "t \<le> t0 + rowCount p + 2000"
    and "t0 + rowCount p + 2000 \<le> T"
  shows "run_until T (partialWorld p t0 t) = fullWorld p t0 T"
proof -
  have "run_until T (partialWorld p t0 t) =
        run_until T (fire (completeTimer (t0 + rowCount p + 2000)) (partialWorld p t0 t))"
    using assms(3) by (intro run_until_single) (simp_all add: partialWorld_def completeTimer_def)
  with assms show ?thesis
    by (simp add: fire_complete_partial run_until_fullWorld)
qed

lemma elapse_mount_small:
  assumes "rowCount p \<le> PREVIEW_LIMIT * 2" and "rowCount p \<le> d"
  shows "elapse d (mount p t0) = fullWorld p t0 (t0 + d)"
proof -
  have "run_until (t0 + d) (mount p t0) =
        run_until (t0 + d) (fire (revealTimer p t0) (mount p t0))"
    using assms(2) by (intro run_until_single) (simp_all add: mount_eq revealTimer_def)
  with assms show ?thesis
    by (simp add: elapse_def now_mount fire_reveal_mount run_until_fullWorld)
qed

lemma elapse_mount_partial:
  assumes "PREVIEW_LIMIT * 2 < rowCount p" and "rowCount p \<le> d" and "d < rowCount p + 2000"
  shows "elapse d (mount p t0) = partialWorld p t0 (t0 + d)"
proof -
  have "run_until (t0 + d) (mount p t0) =
        run_until (t0 + d) (fire (revealTimer p t0) (mount p t0))"
    using assms(2) by (intro run_until_single) (simp_all add: mount_eq revealTimer_def)
  with assms show ?thesis
    by (simp add: elapse_def now_mount fire_reveal_mount run_until_partial_early)
qed

lemma elapse_mount_full:
  assumes "PREVIEW_LIMIT * 2 < rowCount p" and "rowCount p + 2000 \<le> d"
  shows "elapse d (mount p t0) = fullWorld p t0 (t0 + d)"
proof -
  have "run_until (t0 + d) (mount p t0) =
        run_until (t0 + d) (fire (revealTimer p t0) (mount p t0))"
    using assms(2) by (intro run_until_single) (simp_all add: mount_eq revealTimer_def)
  with assms show ?thesis
    by (simp add: elapse_def now_mount fire_reveal_mount run_until_partial_late)
qed

lemma now_partialWorld: "now (partialWorld p t0 t) = t"
  by (simp add: partialWorld_def)

lemma elapse_partial_early:
  "d < 2000 \<Longrightarrow>
   elapse d (partialWorld p t0 (t0 + rowCount p)) = partialWorld p t0 (t0 + rowCount p + d)"
  by (simp add: elapse_def now_partialWorld run_until_partial_early)

lemma elapse_partial_late:
  "PREVIEW_LIMIT * 2 < rowCount p \<Longrightarrow> 2000 \<le> d \<Longrightarrow>
   elapse d (partialWorld p t0 (t0 + rowCount p)) = fullWorld p t0 (t0 + rowCount p + d)"
  by (simp add: elapse_def now_partialWorld run_until_partial_late)

subsection \<open>Duplicate summary\<close>

lemma foldl_addDuplicates:
  "foldl addDuplicates acc rs = acc + sum_list (map duplicatesOrZero rs)"
  by (induction rs arbitrary: acc)
     (auto simp: addDuplicates_def duplicatesOrZero_def split: option.splits)

text \<open>
  C1. \<^verbatim>\<open>dedupCount\<close> is the sum of the duplicate counts of the rows of the deduplicated
  set, a missing count contributing 0; \<^verbatim>\<open>showDuplicates\<close> is true exactly when the
  strategy is not \<^verbatim>\<open>none\<close> and the count is positive; for an empty deduplicated set the
  count is 0 and \<^verbatim>\<open>showDuplicates\<close> is false.
\<close>

theorem dedup_summary:
  "dedupCount (p\<lparr>dedupedData := Some dd\<rparr>) = sum_list (map duplicatesOrZero (rows dd))
   \<and> showDuplicates p = (dedupStrategy p \<noteq> none \<and> 0 < dedupCount p)
   \<and> dedupCount (p\<lparr>dedupedData := Some (dd\<lparr>rows := []\<rparr>)\<rparr>) = 0
   \<and> showDuplicates (p\<lparr>dedupedData := Some (dd\<lparr>rows := []\<rparr>)\<rparr>) = False"
  by (simp add: dedupCount_def showDuplicates_def foldl_addDuplicates)

subsection \<open>Handlers\<close>

text \<open>
  C6. \<^verbatim>\<open>onChangeDedup\<close> notifies the owner exactly once: with \<^verbatim>\<open>none\<close> when the candidate
  is the active strategy, with the candidate otherwise.
\<close>

theorem onChangeDedup_toggles:
  "onChangeDedup p c = [OnDedupStrategyChange (if c = dedupStrategy p then none else c)]
   \<and> length (onChangeDedup p c) = 1"
  by (auto simp: onChangeDedup_def)

lemma isLevel_getProperty: "isLevel (getProperty LogLevel n) = (n \<in> dom LogLevel)"
  by (cases "LogLevel n") (auto simp: isLevel_def getProperty_def)

text \<open>
  C7, as stated, fails: a name the enum does not have is not rejected. With an enum whose
  only member is \<^verbatim>\<open>info\<close>, the names \<^verbatim>\<open>info\<close>, \<^verbatim>\<open>bogus\<close> and \<^verbatim>\<open>constructor\<close> are forwarded to
  the owner in one call, as the level \<^verbatim>\<open>info\<close>, \<^verbatim>\<open>undefined\<close> and the inherited property
  \<^verbatim>\<open>constructor\<close>.
\<close>

theorem onToggleLogLevel_forwards_undefined:
  "[''info'' \<mapsto> ''info''] ''bogus'' = None
   \<and> [''info'' \<mapsto> ''info''] ''constructor'' = None
   \<and> onToggleLogLevel [''info'' \<mapsto> ''info''] [''info'', ''bogus'', ''constructor'']
       = [OnToggleLogLevel [Level ''info'', Undefined, Inherited ''constructor'']]"
  by (simp add: onToggleLogLevel_def getProperty_def objectPrototypeNames_def)

text \<open>
  C7, amended. For every list of names \<^verbatim>\<open>onToggleLogLevel\<close> notifies the owner exactly once,
  with one value per name in the order of the names: the level of the name when the name
  is a member of the enum; otherwise the property of that name inherited from
  \<^verbatim>\<open>Object.prototype\<close> when there is one, and \<^verbatim>\<open>undefined\<close> when there is none. No name is
  rejected or dropped; all forwarded values are levels exactly when every name is a member.
\<close>

theorem onToggleLogLevel_forwards_lookups:
  "onToggleLogLevel LogLevel names =
     [OnToggleLogLevel
        (map (\<lambda>n. case LogLevel n of
                     Some l \<Rightarrow> Level l
                   | None \<Rightarrow>
                       if n \<in> set [''constructor'', ''__defineGetter__'', ''__defineSetter__'',
                                   ''hasOwnProperty'', ''__lookupGetter__'', ''__lookupSetter__'',
                                   ''isPrototypeOf'', ''propertyIsEnumerable'', ''toString'',
                                   ''valueOf'', ''__proto__'', ''toLocaleString'']
                       then Inherited n else Undefined)
             names)]
   \<and> (\<exists>vs. onToggleLogLevel LogLevel names = [OnToggleLogLevel vs]
            \<and> length vs = length names
            \<and> list_all isLevel vs = (set names \<subseteq> dom LogLevel))"
proof -
  have one: "onToggleLogLevel LogLevel names =
             [OnToggleLogLevel (map (getProperty LogLevel) names)]"
    by (simp add: onToggleLogLevel_def)
  have "list_all isLevel (map (getProperty LogLevel) names) = (set names \<subseteq> dom LogLevel)"
    by (induction names) (simp_all add: isLevel_getProperty)
  with one have "\<exists>vs. onToggleLogLevel LogLevel names = [OnToggleLogLevel vs]
            \<and> length vs = length names
            \<and> list_all isLevel vs = (set names \<subseteq> dom LogLevel)"
    by simp
  moreover have "getProperty LogLevel =
        (\<lambda>n. case LogLevel n of
                     Some l \<Rightarrow> Level l
                   | None \<Rightarrow>
                       if n \<in> set [''constructor'', ''__defineGetter__'', ''__defineSetter__'',
                                   ''hasOwnProperty'', ''__lookupGetter__'', ''__lookupSetter__'',
                                   ''isPrototypeOf'', ''propertyIsEnumerable'', ''toString'',
                                   ''valueOf'', ''__proto__'', ''toLocaleString'']
                       then Inherited n else Undefined)"
    unfolding getProperty_def objectPrototypeNames_def by (rule refl)
  ultimately show ?thesis
    using one by simp
qed

subsection \<open>Meta items\<close>

text \<open>
  C8. The entry \<^verbatim>\<open>Dedup count\<close> is appended to the meta items whenever the strategy is
  not \<^verbatim>\<open>none\<close>, whatever the count, also for empty row sets where the count is 0, and
  never when the strategy is \<^verbatim>\<open>none\<close>. (The list is displayed only when there is data.)
\<close>

theorem dedup_entry_appended:
  "metaItems d p =
     (case meta d of Some ms \<Rightarrow> ms | None \<Rightarrow> []) @
     (if dedupStrategy p = none then []
      else [\<lparr>label = ''Dedup count'', mvalue = NumberValue (dedupCount p), kind = Number\<rparr>])
   \<and> metaItems (d\<lparr>rows := []\<rparr>)
        (p\<lparr>dedupedData := Some (dd\<lparr>rows := []\<rparr>), dedupStrategy := exact\<rparr>) =
     (case meta d of Some ms \<Rightarrow> ms | None \<Rightarrow> []) @
     [\<lparr>label = ''Dedup count'', mvalue = NumberValue 0, kind = Number\<rparr>]"
  by (simp add: metaItems_def dedupCount_def)

subsection \<open>What render shows\<close>

lemma map_row_firstElements: "map row (firstElements p s) = firstRows p"
  by (simp add: firstElements_def o_def case_prod_unfold)

lemma map_row_lastElements: "map row (lastElements p s) = lastRows p"
  by (simp add: lastElements_def o_def case_prod_unfold)

lemma hasData_data: "hasData p \<Longrightarrow> \<exists>d. data p = Some d"
  by (cases "data p") (simp_all add: hasData_def)

lemma visibleRows_eq:
  "visibleRows w =
     (if hasData (props w) \<and> \<not> deferLogs (state w)
      then (if renderAll (state w) then processedRows (props w)
            else take PREVIEW_LIMIT (processedRows (props w)))
      else [])"
proof (cases "data (props w)")
  case None
  then show ?thesis
    by (simp add: visibleRows_def render_def hasData_def)
next
  case (Some d)
  then show ?thesis
    by (simp add: visibleRows_def render_def map_row_firstElements map_row_lastElements
        firstRows_def lastRows_def)
qed

lemma shownPlaceholder_eq:
  "shownPlaceholder w =
     (if hasData (props w) \<and> deferLogs (state w)
      then Some (length (processedRows (props w))) else None)"
  by (cases "data (props w)") (simp_all add: shownPlaceholder_def render_def hasData_def)

lemma run_deliveries: "run (map Deliver ps) w = w\<lparr>props := last (props w # ps)\<rparr>"
  by (induction ps arbitrary: w) (simp_all add: deliver_eq)

lemma hasData_rowCount: "hasData p = (0 < rowCount p)"
  by (cases "data p") (simp_all add: hasData_def rowCount_def)

lemma rowCount_foldedProps: "rowCount foldedProps = 201"
  by (simp add: rowCount_def foldedProps_def)

lemma processedRows_foldedProps:
  "processedRows foldedProps = [\<lparr>entry = ''a'', duplicates = Some 200\<rparr>]"
  by (simp add: processedRows_def foldedProps_def)

subsection \<open>Staged rendering of large row sets\<close>

text \<open>
  C2, as stated, fails: the count that selects the staged path is the count of the raw
  rows, and the window is cut from the deduplicated rows. When 201 raw rows are folded
  into one, the reveal timer leads to the partial state with one row in the window,
  not 100.
\<close>

theorem partial_window_counterexample:
  "PREVIEW_LIMIT * 2 < rowCount foldedProps
   \<and> \<not> deferLogs (state (elapse (rowCount foldedProps) (mount foldedProps 0)))
   \<and> \<not> renderAll (state (elapse (rowCount foldedProps) (mount foldedProps 0)))
   \<and> length (visibleRows (elapse (rowCount foldedProps) (mount foldedProps 0))) = 1"
proof -
  have "elapse (rowCount foldedProps) (mount foldedProps 0) = partialWorld foldedProps 0 201"
    using elapse_mount_partial [of foldedProps 201 0]
    by (simp add: rowCount_foldedProps PREVIEW_LIMIT_def)
  then show ?thesis
    by (simp add: visibleRows_eq partialWorld_def initialState_def rowCount_foldedProps
        processedRows_foldedProps hasData_rowCount PREVIEW_LIMIT_def)
qed

text \<open>
  C2, amended. When the raw row count at mount exceeds \<^verbatim>\<open>2 * PREVIEW_LIMIT\<close>, nothing is
  revealed before that many time units have passed; then the reveal timer fires, and the
  instance is partially visible: the window is the first \<^verbatim>\<open>PREVIEW_LIMIT\<close> rows of the
  deduplicated rows (so \<open>min PREVIEW_LIMIT\<close> of their number, also for props delivered
  later), and the complete timer is pending with a delay of 2000. It stays so for less
  than 2000 further units; at 2000 the instance is fully visible, the window being all
  deduplicated rows in their order.
\<close>

theorem staged_reveal_large:
  assumes "PREVIEW_LIMIT * 2 < rowCount p"
  shows
    "(let w1 = elapse (rowCount p) (mount p t0); w2 = elapse 2000 w1 in
       (\<forall>d < rowCount p. deferLogs (state (elapse d (mount p t0))))
       \<and> \<not> deferLogs (state w1) \<and> \<not> renderAll (state w1)
       \<and> now w1 = t0 + rowCount p
       \<and> visibleRows w1 = take PREVIEW_LIMIT (processedRows p)
       \<and> length (visibleRows w1) = min PREVIEW_LIMIT (length (processedRows p))
       \<and> visibleRows (deliver q w1) =
           (if hasData q then take PREVIEW_LIMIT (processedRows q) else [])
       \<and> pending w1 = [\<lparr>handle = 2, due = now w1 + 2000, callback = CompleteCb\<rparr>]
       \<and> (\<forall>d < 2000. \<not> deferLogs (state (elapse d w1)) \<and> \<not> renderAll (state (elapse d w1)))
       \<and> \<not> deferLogs (state w2) \<and> renderAll (state w2)
       \<and> pending w2 = []
       \<and> visibleRows w2 = processedRows p
       \<and> visibleRows (deliver q w2) = (if hasData q then processedRows q else []))"
proof -
  have w1: "elapse (rowCount p) (mount p t0) = partialWorld p t0 (t0 + rowCount p)"
    using assms by (simp add: elapse_mount_partial)
  have w2: "elapse 2000 (partialWorld p t0 (t0 + rowCount p)) =
            fullWorld p t0 (t0 + rowCount p + 2000)"
    using assms by (simp add: elapse_partial_late)
  have hd: "hasData p"
    using assms by (simp add: hasData_rowCount)
  have early: "\<forall>d < rowCount p. deferLogs (state (elapse d (mount p t0)))"
    by (simp add: elapse_mount_early state_mount initialState_def)
  have between:
    "\<forall>d < 2000. \<not> deferLogs (state (elapse d (partialWorld p t0 (t0 + rowCount p)))) \<and>
                 \<not> renderAll (state (elapse d (partialWorld p t0 (t0 + rowCount p))))"
    by (simp add: elapse_partial_early) (simp add: partialWorld_def)
  have part:
    "\<not> deferLogs (state (partialWorld p t0 (t0 + rowCount p)))"
    "\<not> renderAll (state (partialWorld p t0 (t0 + rowCount p)))"
    "now (partialWorld p t0 (t0 + rowCount p)) = t0 + rowCount p"
    "pending (partialWorld p t0 (t0 + rowCount p)) =
       [\<lparr>handle = 2, due = t0 + rowCount p + 2000, callback = CompleteCb\<rparr>]"
    "props (partialWorld p t0 (t0 + rowCount p)) = p"
    by (simp_all add: partialWorld_def completeTimer_def)
  have full:
    "\<not> deferLogs (state (fullWorld p t0 (t0 + rowCount p + 2000)))"
    "renderAll (state (fullWorld p t0 (t0 + rowCount p + 2000)))"
    "pending (fullWorld p t0 (t0 + rowCount p + 2000)) = []"
    "props (fullWorld p t0 (t0 + rowCount p + 2000)) = p"
    by (simp_all add: fullWorld_def)
  show ?thesis
    unfolding Let_def w1 w2
    using early between hd
    by (simp add: visibleRows_eq deliver_eq part full)
qed

theorem staged_reveal_large_witness:
  "PREVIEW_LIMIT * 2 < rowCount foldedProps
   \<and> deferLogs (state (elapse 5 (mount foldedProps 0)))
   \<and> visibleRows (elapse 2000 (elapse (rowCount foldedProps) (mount foldedProps 0))) =
       processedRows foldedProps"
proof -
  have h: "PREVIEW_LIMIT * 2 < rowCount foldedProps"
    by (simp add: rowCount_foldedProps PREVIEW_LIMIT_def)
  have "(5::nat) < rowCount foldedProps"
    by (simp add: rowCount_foldedProps)
  with h staged_reveal_large [OF h, of 0 foldedProps] show ?thesis
    by (simp add: Let_def)
qed

subsection \<open>Immediate rendering of small row sets\<close>

lemma staged_small:
  assumes "staged p t0 w" and "rowCount p \<le> PREVIEW_LIMIT * 2"
  shows "renderAll (state w) = (\<not> deferLogs (state w))"
    and "renderAllTimer w = None"
    and "scheduled w = [revealTimer p t0]"
  using assms
  by (auto simp: staged_def deferredOk_def partialOk_def fullOk_def)

text \<open>
  C3. When the raw row count at mount is at most \<^verbatim>\<open>2 * PREVIEW_LIMIT\<close>, the reveal timer
  takes the instance from deferred to fully visible. Whatever happens to the instance,
  it is either deferred or fully visible, never partially visible, its
  \<^verbatim>\<open>renderAllTimer\<close> is never set, and the reveal timer is the only timer ever scheduled.
\<close>

theorem staged_reveal_small:
  assumes "rowCount p \<le> PREVIEW_LIMIT * 2"
  shows
    "(let w1 = elapse (rowCount p) (mount p t0); wr = run es (mount p t0) in
       (\<forall>d < rowCount p. deferLogs (state (elapse d (mount p t0))))
       \<and> \<not> deferLogs (state w1) \<and> renderAll (state w1)
       \<and> pending w1 = [] \<and> renderAllTimer w1 = None
       \<and> renderAll (state wr) = (\<not> deferLogs (state wr))
       \<and> renderAllTimer wr = None
       \<and> scheduled wr =
           [\<lparr>handle = 1, due = t0 + rowCount p, callback = RevealCb True\<rparr>])"
proof -
  have w1: "elapse (rowCount p) (mount p t0) = fullWorld p t0 (t0 + rowCount p)"
    using assms by (simp add: elapse_mount_small)
  have early: "\<forall>d < rowCount p. deferLogs (state (elapse d (mount p t0)))"
    by (simp add: elapse_mount_early state_mount initialState_def)
  have full:
    "\<not> deferLogs (state (fullWorld p t0 (t0 + rowCount p)))"
    "renderAll (state (fullWorld p t0 (t0 + rowCount p)))"
    "pending (fullWorld p t0 (t0 + rowCount p)) = []"
    "renderAllTimer (fullWorld p t0 (t0 + rowCount p)) = None"
    using assms by (simp_all add: fullWorld_def)
  have rt: "revealTimer p t0 = \<lparr>handle = 1, due = t0 + rowCount p, callback = RevealCb True\<rparr>"
    using assms by (simp add: revealTimer_def)
  show ?thesis
    unfolding Let_def w1
    using early full staged_small [OF staged_reachable [of p t0 es] assms]
    by (simp add: rt)
qed

theorem staged_reveal_small_witness:
  "rowCount emptyProps \<le> PREVIEW_LIMIT * 2
   \<and> renderAll (state (elapse (rowCount emptyProps) (mount emptyProps 0)))
   \<and> renderAllTimer (run [Elapse 3, Deliver foldedProps, Elapse 5000] (mount emptyProps 0)) = None"
proof -
  have h: "rowCount emptyProps \<le> PREVIEW_LIMIT * 2"
    by (simp add: rowCount_def emptyProps_def)
  from staged_reveal_small [OF h, of 0 "[Elapse 3, Deliver foldedProps, Elapse 5000]"] h
  show ?thesis
    by (simp add: Let_def)
qed

subsection \<open>The deferred state\<close>



subsection \<open>Teardown\<close>

text \<open>
  C5. Unmounting cancels every pending timer, at any moment of the instance's life.
  Afterwards no timer is pending or scheduled, and the flags \<^verbatim>\<open>deferLogs\<close> and \<^verbatim>\<open>renderAll\<close>
  keep the values they had at the teardown, whatever happens and however much time
  passes. In particular an instance unmounted before the reveal timer is due stays
  deferred for ever.
\<close>

theorem unmount_cancels_timers:
  "pending (run (es @ Unmount # es') (mount p t0)) = []
   \<and> scheduled (run (es @ Unmount # es') (mount p t0)) = scheduled (run es (mount p t0))
   \<and> deferLogs (state (run (es @ Unmount # es') (mount p t0))) =
       deferLogs (state (run es (mount p t0)))
   \<and> renderAll (state (run (es @ Unmount # es') (mount p t0))) =
       renderAll (state (run es (mount p t0)))
   \<and> deferLogs (state (run (Unmount # es') (mount p t0)))
   \<and> \<not> renderAll (state (run (Unmount # es') (mount p t0)))
   \<and> (\<forall>d < rowCount p.
         deferLogs (state (run (Elapse d # Unmount # es') (mount p t0))) \<and>
         \<not> renderAll (state (run (Elapse d # Unmount # es') (mount p t0))))"
proof -
  have cut: "run (xs @ Unmount # es') (mount p t0) =
             run es' ((run xs (mount p t0))\<lparr>pending := []\<rparr>)" for xs
    using staged_unmount_eq [OF staged_reachable [of p t0 xs]]
    by (simp add: run_append)
  have frozen:
    "pending (run (xs @ Unmount # es') (mount p t0)) = [] \<and>
     scheduled (run (xs @ Unmount # es') (mount p t0)) = scheduled (run xs (mount p t0)) \<and>
     deferLogs (state (run (xs @ Unmount # es') (mount p t0))) =
       deferLogs (state (run xs (mount p t0))) \<and>
     renderAll (state (run (xs @ Unmount # es') (mount p t0))) =
       renderAll (state (run xs (mount p t0)))" for xs
    using quiet_run [of "(run xs (mount p t0))\<lparr>pending := []\<rparr>" es']
    by (simp add: cut)
  have early: "\<forall>d < rowCount p.
         deferLogs (state (run (Elapse d # Unmount # es') (mount p t0))) \<and>
         \<not> renderAll (state (run (Elapse d # Unmount # es') (mount p t0)))"
  proof (intro allI impI)
    fix d assume "d < rowCount p"
    then have "state (run [Elapse d] (mount p t0)) = initialState"
      by (simp add: elapse_mount_early state_mount)
    with frozen [of "[Elapse d]"]
    show "deferLogs (state (run (Elapse d # Unmount # es') (mount p t0))) \<and>
          \<not> renderAll (state (run (Elapse d # Unmount # es') (mount p t0)))"
      by (simp add: initialState_def)
  qed
  from frozen [of es] frozen [of "[]"] early show ?thesis
    by (simp add: state_mount initialState_def)
qed

theorem unmount_cancels_timers_witness:
  "(5::nat) < rowCount foldedProps
   \<and> deferLogs (state (run [Elapse 5, Unmount, Elapse 10000] (mount foldedProps 0)))
   \<and> pending (run [Elapse 5, Unmount, Elapse 10000] (mount foldedProps 0)) = []"
proof -
  have h: "(5::nat) < rowCount foldedProps"
    by (simp add: rowCount_foldedProps)
  note t = unmount_cancels_timers [of "[Elapse 5]" "[Elapse 10000]" foldedProps 0]
  from t have a: "pending (run ([Elapse 5] @ Unmount # [Elapse 10000]) (mount foldedProps 0)) = []"
    by (rule conjunct1)
  from t h have b: "deferLogs (state (run (Elapse 5 # Unmount # [Elapse 10000]) (mount foldedProps 0)))"
    by blast
  from a b h show ?thesis
    by simp
qed

subsection \<open>The reveal timer\<close>

lemma staged_reveals: "staged p t0 w \<Longrightarrow> filter isReveal (scheduled w) = [revealTimer p t0]"
  by (auto simp: staged_def deferredOk_def partialOk_def fullOk_def isReveal_def
      revealTimer_def completeTimer_def)

text \<open>
  C9. Mounting schedules the reveal timer with a delay equal to the number of rows of the
  raw data in the props at that moment (0 when there is no data). Whatever happens to the
  instance afterwards, this is the only reveal timer it ever schedules; data deliveries,
  whatever their row counts, change the props and nothing else, so they neither re-arm
  the timer nor recompute its delay.
\<close>

theorem reveal_timer_scheduled_once:
  "now (mount p t0) = t0
   \<and> pending (mount (p\<lparr>data := Some d\<rparr>) t0) =
       [\<lparr>handle = 1, due = t0 + length (rows d),
         callback = RevealCb (length (rows d) \<le> 200)\<rparr>]
   \<and> pending (mount (p\<lparr>data := None\<rparr>) t0) =
       [\<lparr>handle = 1, due = t0, callback = RevealCb True\<rparr>]
   \<and> filter isReveal (scheduled (run es (mount (p\<lparr>data := Some d\<rparr>) t0))) =
       [\<lparr>handle = 1, due = t0 + length (rows d),
         callback = RevealCb (length (rows d) \<le> 200)\<rparr>]
   \<and> filter isReveal (scheduled (run es (mount (p\<lparr>data := None\<rparr>) t0))) =
       [\<lparr>handle = 1, due = t0, callback = RevealCb True\<rparr>]
   \<and> pending (run (map Deliver ps) (mount (p\<lparr>data := Some d\<rparr>) t0)) =
       [\<lparr>handle = 1, due = t0 + length (rows d),
         callback = RevealCb (length (rows d) \<le> 200)\<rparr>]
   \<and> run (map Deliver ps) (mount p t0) = (mount p t0)\<lparr>props := last (p # ps)\<rparr>"
proof -
  have present: "revealTimer (p\<lparr>data := Some d\<rparr>) t0 =
      \<lparr>handle = 1, due = t0 + length (rows d), callback = RevealCb (length (rows d) \<le> 200)\<rparr>"
    by (simp add: revealTimer_def rowCount_def PREVIEW_LIMIT_def)
  have absent: "revealTimer (p\<lparr>data := None\<rparr>) t0 =
      \<lparr>handle = 1, due = t0, callback = RevealCb True\<rparr>"
    by (simp add: revealTimer_def rowCount_def)
  have pm: "pending (mount q t0) = [revealTimer q t0]" for q
    by (simp add: mount_eq)
  have pd: "pending (run (map Deliver ps) (mount q t0)) = [revealTimer q t0]" for q
    by (simp add: run_deliveries) (simp add: mount_eq)
  have rd: "run (map Deliver ps) (mount p t0) = (mount p t0)\<lparr>props := last (p # ps)\<rparr>"
    by (simp add: run_deliveries) (simp add: mount_eq)
  from staged_reveals [OF staged_reachable [of "p\<lparr>data := Some d\<rparr>" t0 es]]
       staged_reveals [OF staged_reachable [of "p\<lparr>data := None\<rparr>" t0 es]]
       pm [of "p\<lparr>data := Some d\<rparr>"] pm [of "p\<lparr>data := None\<rparr>"]
       pd [of "p\<lparr>data := Some d\<rparr>"] rd
  show ?thesis
    by (simp add: present absent now_mount)
qed

subsection \<open>Raw and deduplicated rows\<close>

text \<open>
  C10. The delay of the reveal timer is the number of raw rows (\<^verbatim>\<open>data.rows\<close>); the visible
  window, the count in the placeholder and \<^verbatim>\<open>dedupCount\<close> are computed from the
  deduplicated rows (\<^verbatim>\<open>dedupedData.rows\<close>). When \<^verbatim>\<open>dedupedData\<close> is absent the window is
  empty, the placeholder counts 0 rows and \<^verbatim>\<open>dedupCount\<close> is 0 in every state, however
  many raw rows there are.
\<close>

theorem raw_count_deduped_window:
  "pending (mount (p\<lparr>data := Some d\<rparr>) t0) =
     [\<lparr>handle = 1, due = t0 + length (rows d),
       callback = RevealCb (length (rows d) \<le> PREVIEW_LIMIT * 2)\<rparr>]
   \<and> visibleRows (w\<lparr>props := (props w)\<lparr>dedupedData := Some dd\<rparr>\<rparr>) =
       (if hasData (props w) \<and> \<not> deferLogs (state w)
        then (if renderAll (state w) then rows dd else take PREVIEW_LIMIT (rows dd))
        else [])
   \<and> shownPlaceholder (w\<lparr>props := (props w)\<lparr>dedupedData := Some dd\<rparr>\<rparr>) =
       (if hasData (props w) \<and> deferLogs (state w) then Some (length (rows dd)) else None)
   \<and> dedupCount (p\<lparr>dedupedData := Some dd\<rparr>) = sum_list (map duplicatesOrZero (rows dd))
   \<and> visibleRows (w\<lparr>props := (props w)\<lparr>dedupedData := None\<rparr>\<rparr>) = []
   \<and> shownPlaceholder (w\<lparr>props := (props w)\<lparr>dedupedData := None\<rparr>\<rparr>) =
       (if hasData (props w) \<and> deferLogs (state w) then Some 0 else None)
   \<and> dedupCount (p\<lparr>dedupedData := None\<rparr>) = 0"
  by (simp add: mount_eq revealTimer_def rowCount_def visibleRows_eq shownPlaceholder_eq
      processedRows_def hasData_def dedupCount_def foldl_addDuplicates)

end
